theory Spec2Isabelle
  imports Main
begin

section \<open>The reconnecting WebSocket client\<close>

text \<open>
  The class \<open>RealTimeService\<close> of the front end's service module: one instance per job,
  holding the current socket (\<open>ws\<close>) and the reconnect counter. The two other private
  fields, \<open>maxReconnectAttempts = 5\<close> and \<open>reconnectInterval = 3000\<close>, are initialised
  once and never assigned again, so they are constants here.

  Everything the class does happens in callbacks that the browser runs: the four socket
  handlers installed by \<open>connect\<close> and the timer callback installed by
  \<open>attemptReconnect\<close>. The model keeps, next to the two mutable fields, what those
  callbacks act on: the sockets created so far with their \<open>readyState\<close>, the promises
  returned by \<open>connect\<close>, the pending timers, and the trace of effects the caller or the
  platform can observe.
\<close>

datatype ready_state = CONNECTING | OPEN | CLOSING | CLOSED

datatype promise_state = Pending | Fulfilled | Rejected

datatype outcome = Returns | Throws

datatype exn = SyntaxError | CallbackError

datatype console_line =
    Log_connected string
  | Log_closed string
  | Log_reconnecting nat nat
  | Err_parse exn
  | Err_socket

datatype 'j effect =
    New_WebSocket string
  | Ws_close nat
  | Set_timeout nat
  | Console console_line
  | On_message 'j
  | On_error
  | Uncaught exn

text \<open>
  A socket remembers the promise whose \<open>resolve\<close> and \<open>reject\<close> its handlers close over.
  A promise is its state and whether a rejection handler was attached to it: the timer
  callback attaches an empty \<open>catch\<close>, the promise of a direct call goes to the caller.
\<close>

record socket =
  readyState :: ready_state
  promise_of :: nat

record 'j client =
  jobId :: string
  ws :: "nat option"
  reconnectAttempts :: nat
  sockets :: "socket list"
  promises :: "(promise_state \<times> bool) list"
  timers :: "nat list"
  trace :: "'j effect list"

text \<open>
  What the class is given from outside: the platform's \<open>JSON.parse\<close> (\<open>None\<close> when it
  throws) and \<open>WebSocket\<close> constructor (which throws on a URL it rejects), and the two
  callbacks passed to \<open>connect\<close>; \<open>onError\<close> is optional. A callback either returns or
  throws. Both call sites of the class create an instance and call \<open>connect\<close> once, so an
  instance has one pair of callbacks.
\<close>

record 'j env =
  JSON_parse :: "string \<Rightarrow> 'j option"
  WebSocket_ctor :: "string \<Rightarrow> outcome"
  onMessage :: "'j \<Rightarrow> outcome"
  onError :: "outcome option"

definition maxReconnectAttempts :: nat where
  "maxReconnectAttempts = 5"

definition reconnectInterval :: nat where
  "reconnectInterval = 3000"

definition new_client :: "string \<Rightarrow> 'j client" where
  "new_client jid =
     \<lparr>jobId = jid, ws = None, reconnectAttempts = 0, sockets = [], promises = [],
      timers = [], trace = []\<rparr>"

definition emit :: "'j effect \<Rightarrow> 'j client \<Rightarrow> 'j client" where
  "emit e s = s\<lparr>trace := trace s @ [e]\<rparr>"

text \<open>\<open>resolve\<close> and \<open>reject\<close>: a promise is settled once, later calls do nothing.\<close>

definition settle :: "nat \<Rightarrow> promise_state \<Rightarrow> 'j client \<Rightarrow> 'j client" where
  "settle p v s =
     (if p < length (promises s) \<and> fst (promises s ! p) = Pending
      then s\<lparr>promises := (promises s)[p := (v, snd (promises s ! p))]\<rparr>
      else s)"

definition wsUrl :: "'j client \<Rightarrow> string" where
  "wsUrl s = ''ws://localhost:8000/ws/job/'' @ jobId s"

text \<open>
  \<open>connect\<close>: a new promise; in its executor the socket is constructed and stored in
  \<open>ws\<close>, and the four handlers are installed. When the constructor throws, the \<open>catch\<close>
  rejects the promise and \<open>ws\<close> keeps its value.
\<close>

definition connect :: "'j env \<Rightarrow> 'j client \<Rightarrow> 'j client" where
  "connect env s =
     (let p = length (promises s);
          s1 = emit (New_WebSocket (wsUrl s)) (s\<lparr>promises := promises s @ [(Pending, False)]\<rparr>)
      in case WebSocket_ctor env (wsUrl s) of
           Throws \<Rightarrow> settle p Rejected s1
         | Returns \<Rightarrow>
             s1\<lparr>ws := Some (length (sockets s1)),
                sockets := sockets s1 @ [\<lparr>readyState = CONNECTING, promise_of = p\<rparr>]\<rparr>)"

definition ws_onopen :: "nat \<Rightarrow> 'j client \<Rightarrow> 'j client" where
  "ws_onopen p s =
     settle p Fulfilled ((emit (Console (Log_connected (jobId s))) s)\<lparr>reconnectAttempts := 0\<rparr>)"

text \<open>
  The body of the \<open>try\<close> in \<open>onmessage\<close>, with the exception it ends in, if any; the
  handler's \<open>catch\<close> takes every exception and logs it. A handler returns the state and the
  exception that leaves it.
\<close>

definition onmessage_try :: "'j env \<Rightarrow> string \<Rightarrow> 'j client \<Rightarrow> 'j client \<times> exn option" where
  "onmessage_try env payload s =
     (case JSON_parse env payload of
        None \<Rightarrow> (s, Some SyntaxError)
      | Some d \<Rightarrow>
          (emit (On_message d) s,
           case onMessage env d of Throws \<Rightarrow> Some CallbackError | Returns \<Rightarrow> None))"

definition ws_onmessage :: "'j env \<Rightarrow> string \<Rightarrow> 'j client \<Rightarrow> 'j client \<times> exn option" where
  "ws_onmessage env payload s =
     (case onmessage_try env payload s of
        (s1, None) \<Rightarrow> (s1, None)
      | (s1, Some e) \<Rightarrow> (emit (Console (Err_parse e)) s1, None))"

definition attemptReconnect :: "'j client \<Rightarrow> 'j client" where
  "attemptReconnect s =
     (if reconnectAttempts s < maxReconnectAttempts
      then let s1 = s\<lparr>reconnectAttempts := reconnectAttempts s + 1\<rparr>;
               s2 = emit (Console (Log_reconnecting (reconnectAttempts s1) maxReconnectAttempts)) s1
           in emit (Set_timeout reconnectInterval) (s2\<lparr>timers := timers s2 @ [reconnectInterval]\<rparr>)
      else s)"

definition ws_onclose :: "'j client \<Rightarrow> 'j client" where
  "ws_onclose s = attemptReconnect (emit (Console (Log_closed (jobId s))) s)"

text \<open>When \<open>onError\<close> throws, the exception leaves the handler before \<open>reject\<close> is reached.\<close>

definition ws_onerror :: "'j env \<Rightarrow> nat \<Rightarrow> 'j client \<Rightarrow> 'j client \<times> exn option" where
  "ws_onerror env p s =
     (let s1 = emit (Console Err_socket) s
      in case onError env of
           None \<Rightarrow> (settle p Rejected s1, None)
         | Some Returns \<Rightarrow> (settle p Rejected (emit On_error s1), None)
         | Some Throws \<Rightarrow> (emit On_error s1, Some CallbackError))"

text \<open>The callback given to \<open>setTimeout\<close>: \<open>connect\<close>, with an empty \<open>catch\<close> on its promise.\<close>

definition timer_callback :: "'j env \<Rightarrow> 'j client \<Rightarrow> 'j client" where
  "timer_callback env s =
     (let p = length (promises s); s1 = connect env s
      in s1\<lparr>promises := (promises s1)[p := (fst (promises s1 ! p), True)]\<rparr>)"

text \<open>
  \<open>WebSocket.close()\<close> moves a connecting or open socket to \<open>CLOSING\<close> and does nothing
  on a socket that is closing or closed; the close event comes later.
\<close>

definition close_socket :: "nat \<Rightarrow> socket list \<Rightarrow> socket list" where
  "close_socket i ss =
     (if i < length ss \<and> (readyState (ss ! i) = CONNECTING \<or> readyState (ss ! i) = OPEN)
      then ss[i := (ss ! i)\<lparr>readyState := CLOSING\<rparr>]
      else ss)"

definition disconnect :: "'j client \<Rightarrow> 'j client" where
  "disconnect s =
     (case ws s of
        None \<Rightarrow> s
      | Some i \<Rightarrow> (emit (Ws_close i) (s\<lparr>sockets := close_socket i (sockets s)\<rparr>))\<lparr>ws := None\<rparr>)"

definition isConnected :: "'j client \<Rightarrow> bool" where
  "isConnected s =
     (case ws s of
        None \<Rightarrow> False
      | Some i \<Rightarrow> i < length (sockets s) \<and> readyState (sockets s ! i) = OPEN)"

subsection \<open>Events\<close>

text \<open>
  What can happen to an instance: the caller calls \<open>connect\<close> or \<open>disconnect\<close>, the
  browser fires an event of one of the sockets, or a timer expires. The browser fires
  \<open>open\<close> on a connecting socket only, \<open>message\<close> on an open one, \<open>error\<close> and \<open>close\<close>
  on one that is not closed yet (\<open>close\<close> once, and it carries whether the closure was
  clean); a timer fires once. An event that is not enabled does not happen.
\<close>

datatype event =
    Call_connect
  | Call_disconnect
  | Ev_open nat
  | Ev_message nat string
  | Ev_error nat
  | Ev_close nat bool
  | Ev_timeout nat

fun enabled :: "'j client \<Rightarrow> event \<Rightarrow> bool" where
  "enabled s Call_connect = True"
| "enabled s Call_disconnect = True"
| "enabled s (Ev_open i) = (i < length (sockets s) \<and> readyState (sockets s ! i) = CONNECTING)"
| "enabled s (Ev_message i payload) = (i < length (sockets s) \<and> readyState (sockets s ! i) = OPEN)"
| "enabled s (Ev_error i) = (i < length (sockets s) \<and> readyState (sockets s ! i) \<noteq> CLOSED)"
| "enabled s (Ev_close i clean) = (i < length (sockets s) \<and> readyState (sockets s ! i) \<noteq> CLOSED)"
| "enabled s (Ev_timeout k) = (k < length (timers s))"

definition set_ready :: "nat \<Rightarrow> ready_state \<Rightarrow> 'j client \<Rightarrow> 'j client" where
  "set_ready i r s = s\<lparr>sockets := (sockets s)[i := (sockets s ! i)\<lparr>readyState := r\<rparr>]\<rparr>"

text \<open>An exception that leaves a handler is reported by the browser and goes nowhere else.\<close>

definition report :: "'j client \<times> exn option \<Rightarrow> 'j client" where
  "report r = (case r of (s, None) \<Rightarrow> s | (s, Some e) \<Rightarrow> emit (Uncaught e) s)"

fun fire :: "'j env \<Rightarrow> 'j client \<Rightarrow> event \<Rightarrow> 'j client" where
  "fire env s Call_connect = connect env s"
| "fire env s Call_disconnect = disconnect s"
| "fire env s (Ev_open i) = ws_onopen (promise_of (sockets s ! i)) (set_ready i OPEN s)"
| "fire env s (Ev_message i payload) = report (ws_onmessage env payload s)"
| "fire env s (Ev_error i) = report (ws_onerror env (promise_of (sockets s ! i)) s)"
| "fire env s (Ev_close i clean) = ws_onclose (set_ready i CLOSED s)"
| "fire env s (Ev_timeout k) =
     timer_callback env (s\<lparr>timers := take k (timers s) @ drop (Suc k) (timers s)\<rparr>)"

definition step :: "'j env \<Rightarrow> 'j client \<Rightarrow> event \<Rightarrow> 'j client" where
  "step env s ev = (if enabled s ev then fire env s ev else s)"

definition run :: "'j env \<Rightarrow> 'j client \<Rightarrow> event list \<Rightarrow> 'j client" where
  "run env s es = foldl (step env) s es"

text \<open>A sequence of events that can happen in this order: each is enabled when its turn comes.\<close>

fun feasible :: "'j env \<Rightarrow> 'j client \<Rightarrow> event list \<Rightarrow> bool" where
  "feasible env s [] = True"
| "feasible env s (ev # es) = (enabled s ev \<and> feasible env (step env s ev) es)"


subsection \<open>What a run shows\<close>

text \<open>
  Read off the trace: the data handed to \<open>onMessage\<close>, the delays given to
  \<open>setTimeout\<close>, the number of sockets constructed and of \<open>onError\<close> calls. A retry is a
  \<open>connect\<close> made by the timer callback; its promise is the one with the empty \<open>catch\<close>.
\<close>

fun delivered_of :: "'j effect list \<Rightarrow> 'j list" where
  "delivered_of [] = []"
| "delivered_of (On_message d # es) = d # delivered_of es"
| "delivered_of (e # es) = delivered_of es"

fun timeouts_of :: "'j effect list \<Rightarrow> nat list" where
  "timeouts_of [] = []"
| "timeouts_of (Set_timeout d # es) = d # timeouts_of es"
| "timeouts_of (e # es) = timeouts_of es"

fun is_connect :: "'j effect \<Rightarrow> bool" where
  "is_connect (New_WebSocket u) = True"
| "is_connect e = False"

fun is_error_signal :: "'j effect \<Rightarrow> bool" where
  "is_error_signal On_error = True"
| "is_error_signal e = False"

definition connection_attempts :: "'j client \<Rightarrow> nat" where
  "connection_attempts s = length (filter is_connect (trace s))"

definition error_signals :: "'j client \<Rightarrow> nat" where
  "error_signals s = length (filter is_error_signal (trace s))"

definition retries :: "'j client \<Rightarrow> nat" where
  "retries s = length (filter snd (promises s))"

fun is_open :: "event \<Rightarrow> bool" where
  "is_open (Ev_open i) = True"
| "is_open ev = False"

text \<open>
  The caller's own \<open>connect\<close> calls, and the sockets that are not closed yet. With one
  \<open>connect\<close> call an instance has at most one thing in flight, a live socket or a pending
  timer, and a pending timer has been counted in \<open>reconnectAttempts\<close>.
\<close>

fun is_call_connect :: "event \<Rightarrow> bool" where
  "is_call_connect Call_connect = True"
| "is_call_connect ev = False"

definition live :: "socket \<Rightarrow> bool" where
  "live x = (readyState x \<noteq> CLOSED)"

definition live_sockets :: "'j client \<Rightarrow> nat" where
  "live_sockets s = length (filter live (sockets s))"

definition one_connection :: "'j client \<Rightarrow> bool" where
  "one_connection s =
     (length (timers s) \<le> reconnectAttempts s \<and> length (timers s) + live_sockets s \<le> 1)"

text \<open>
  A sample environment for concrete runs: payloads are taken as their own parsed value,
  except \<open>garbled\<close>, which does not parse; the message callback throws on \<open>boom\<close>; the
  constructor accepts every URL and \<open>onError\<close> is supplied.
\<close>

definition sample_env :: "string env" where
  "sample_env =
     \<lparr>JSON_parse = (\<lambda>p. if p = ''garbled'' then None else Some p),
      WebSocket_ctor = (\<lambda>u. Returns),
      onMessage = (\<lambda>d. if d = ''boom'' then Throws else Returns),
      onError = Some Returns\<rparr>"

text \<open>
  Two states of a client for job \<open>J1\<close> in that environment: connected, and waiting to
  reconnect after the connection dropped.
\<close>

definition connected_client :: "string client" where
  "connected_client = run sample_env (new_client ''J1'') [Call_connect, Ev_open 0]"

definition backoff_client :: "string client" where
  "backoff_client = run sample_env connected_client [Ev_close 0 False]"

text \<open>
  From there, five retries that all fail (the browser fires \<open>error\<close>, then \<open>close\<close>), up
  to the \<open>error\<close> event of the fifth; the \<open>close\<close> event of the fifth socket is still to come.
\<close>

definition failing_retries :: "event list" where
  "failing_retries =
     [Ev_timeout 0, Ev_error 1, Ev_close 1 False,
      Ev_timeout 0, Ev_error 2, Ev_close 2 False,
      Ev_timeout 0, Ev_error 3, Ev_close 3 False,
      Ev_timeout 0, Ev_error 4, Ev_close 4 False,
      Ev_timeout 0, Ev_error 5]"

definition exhausted_client :: "string client" where
  "exhausted_client = run sample_env backoff_client failing_retries"

section \<open>The job runner\<close>

text \<open>
  The runner belongs to the back end; the front end only receives its events. Its stage
  loop is modelled from the specification's contract of the Job Runner.
\<close>

datatype job_status = Queued | Running | Completed | Failed

record progress_event =
  job_id :: string
  status :: job_status
  progress :: int
  message :: string

datatype work_result = Succeeds | Fails string

record stage =
  name :: string
  weight :: int
  work :: work_result

text \<open>
  Modelled from the spec: the Job Runner's stage loop, which is back-end code missing from
  the sources. For each stage in plan order the stage's work is invoked; on success the
  cumulative weight of the stages completed so far is published with status running; on
  failure one event with status failed, the progress reached before and the error message
  is published and the loop stops; on success of the final stage the one event published
  is the terminal one, with status completed and progress 100 (eleven stages give eleven
  progress values, the last completed). The events are returned in the order published.
\<close>

fun run_stages :: "string \<Rightarrow> int \<Rightarrow> stage list \<Rightarrow> progress_event list" where
  "run_stages jid acc [] = []"
| "run_stages jid acc (st # rest) =
     (case work st of
        Fails err \<Rightarrow> [\<lparr>job_id = jid, status = Failed, progress = acc, message = err\<rparr>]
      | Succeeds \<Rightarrow>
          (if rest = []
           then [\<lparr>job_id = jid, status = Completed, progress = 100, message = name st\<rparr>]
           else \<lparr>job_id = jid, status = Running, progress = acc + weight st, message = name st\<rparr>
                # run_stages jid (acc + weight st) rest))"

definition run_job :: "string \<Rightarrow> stage list \<Rightarrow> progress_event list" where
  \<comment> \<open>Modelled from the spec: a job starts its plan with no stage completed.\<close>
  "run_job jid plan = run_stages jid 0 plan"

definition terminal :: "progress_event \<Rightarrow> bool" where
  "terminal e = (status e = Completed \<or> status e = Failed)"

definition stage_plan_ok :: "stage list \<Rightarrow> bool" where
  "stage_plan_ok plan = ((\<forall>st\<in>set plan. 0 \<le> weight st) \<and> sum_list (map weight plan) = 100)"

definition all_succeed :: "stage list \<Rightarrow> bool" where
  "all_succeed plan = (\<forall>st\<in>set plan. work st = Succeeds)"

text \<open>The eleven steps of the live EDA analysis, as the README lists them, all succeeding.\<close>

definition eda_plan :: "stage list" where
  "eda_plan =
     [\<lparr>name = ''Data Loading & Validation'', weight = 5, work = Succeeds\<rparr>,
      \<lparr>name = ''Basic Statistics'', weight = 10, work = Succeeds\<rparr>,
      \<lparr>name = ''Missing Values Analysis'', weight = 10, work = Succeeds\<rparr>,
      \<lparr>name = ''Distribution Analysis'', weight = 10, work = Succeeds\<rparr>,
      \<lparr>name = ''Correlation Analysis'', weight = 10, work = Succeeds\<rparr>,
      \<lparr>name = ''Feature Importance'', weight = 10, work = Succeeds\<rparr>,
      \<lparr>name = ''Outlier Detection'', weight = 10, work = Succeeds\<rparr>,
      \<lparr>name = ''Data Quality Report'', weight = 10, work = Succeeds\<rparr>,
      \<lparr>name = ''Visualization Generation'', weight = 10, work = Succeeds\<rparr>,
      \<lparr>name = ''Summary & Recommendations'', weight = 10, work = Succeeds\<rparr>,
      \<lparr>name = ''Complete'', weight = 5, work = Succeeds\<rparr>]"

text \<open>The same plan with its sixth stage failing.\<close>

definition eda_plan_failing :: "stage list" where
  "eda_plan_failing = eda_plan[5 := (eda_plan ! 5)\<lparr>work := Fails ''error''\<rparr>]"

section \<open>Properties of the client\<close>

subsection \<open>Reading the trace\<close>

lemma delivered_of_append: "delivered_of (xs @ ys) = delivered_of xs @ delivered_of ys"
  by (induction xs rule: delivered_of.induct) simp_all

lemma timeouts_of_append: "timeouts_of (xs @ ys) = timeouts_of xs @ timeouts_of ys"
  by (induction xs rule: timeouts_of.induct) simp_all

lemma emit_fields:
  "jobId (emit e s) = jobId s" "ws (emit e s) = ws s"
  "reconnectAttempts (emit e s) = reconnectAttempts s" "sockets (emit e s) = sockets s"
  "promises (emit e s) = promises s" "timers (emit e s) = timers s"
  "trace (emit e s) = trace s @ [e]"
  by (simp_all add: emit_def)

lemma settle_fields:
  "jobId (settle p v s) = jobId s" "ws (settle p v s) = ws s"
  "reconnectAttempts (settle p v s) = reconnectAttempts s" "sockets (settle p v s) = sockets s"
  "timers (settle p v s) = timers s" "trace (settle p v s) = trace s"
  "length (promises (settle p v s)) = length (promises s)"
  by (simp_all add: settle_def)

lemma filter_snd_update:
  "p < length xs \<Longrightarrow> length (filter snd (xs[p := (v, snd (xs ! p))])) = length (filter snd xs)"
proof (induction xs arbitrary: p)
  case Nil
  then show ?case by simp
next
  case (Cons x xs)
  then show ?case by (cases p) (simp_all add: prod.case_eq_if)
qed

lemma retries_settle: "retries (settle p v s) = retries s"
  by (simp add: retries_def settle_def filter_snd_update)

lemma retries_emit: "retries (emit e s) = retries s"
  by (simp add: retries_def emit_fields)

subsection \<open>What each operation changes\<close>

lemma connect_promises:
  "\<exists>x. promises (connect env s) = promises s @ [(x, False)]"
  by (simp add: connect_def Let_def emit_def settle_def split: outcome.splits)

lemma connect_facts:
  "reconnectAttempts (connect env s) = reconnectAttempts s"
  "timers (connect env s) = timers s"
  "timeouts_of (trace (connect env s)) = timeouts_of (trace s)"
  "delivered_of (trace (connect env s)) = delivered_of (trace s)"
  by (simp_all add: connect_def Let_def emit_fields settle_fields timeouts_of_append
      delivered_of_append split: outcome.splits)

lemma retries_connect: "retries (connect env s) = retries s"
  using connect_promises [of env s] by (auto simp: retries_def)

lemma attempts_connect: "connection_attempts (connect env s) = connection_attempts s + 1"
  by (simp add: connection_attempts_def connect_def Let_def emit_fields settle_fields
      split: outcome.splits)

lemma timer_callback_facts:
  "reconnectAttempts (timer_callback env s) = reconnectAttempts s"
  "timers (timer_callback env s) = timers s"
  "timeouts_of (trace (timer_callback env s)) = timeouts_of (trace s)"
  by (simp_all add: timer_callback_def Let_def connect_facts)

lemma retries_timer_callback: "retries (timer_callback env s) = retries s + 1"
  using connect_promises [of env s] by (auto simp: retries_def timer_callback_def Let_def)

lemma attempts_timer_callback:
  "connection_attempts (timer_callback env s) = connection_attempts s + 1"
  by (simp add: connection_attempts_def timer_callback_def Let_def
      attempts_connect [unfolded connection_attempts_def])

lemma disconnect_facts:
  "reconnectAttempts (disconnect s) = reconnectAttempts s"
  "timers (disconnect s) = timers s"
  "promises (disconnect s) = promises s"
  "timeouts_of (trace (disconnect s)) = timeouts_of (trace s)"
  "ws (disconnect s) = None"
  "length (sockets (disconnect s)) = length (sockets s)"
  by (simp_all add: disconnect_def emit_def close_socket_def timeouts_of_append
      split: option.splits)

lemma attempts_disconnect: "connection_attempts (disconnect s) = connection_attempts s"
  by (simp add: connection_attempts_def disconnect_def emit_def split: option.splits)

lemma onmessage_facts:
  "reconnectAttempts (report (ws_onmessage env payload s)) = reconnectAttempts s"
  "timers (report (ws_onmessage env payload s)) = timers s"
  "promises (report (ws_onmessage env payload s)) = promises s"
  "sockets (report (ws_onmessage env payload s)) = sockets s"
  "ws (report (ws_onmessage env payload s)) = ws s"
  "timeouts_of (trace (report (ws_onmessage env payload s))) = timeouts_of (trace s)"
  by (simp_all add: ws_onmessage_def onmessage_try_def report_def emit_def timeouts_of_append
      split: option.splits outcome.splits)

lemma delivered_onmessage:
  "delivered_of (trace (report (ws_onmessage env payload s))) =
     delivered_of (trace s) @ (case JSON_parse env payload of None \<Rightarrow> [] | Some d \<Rightarrow> [d])"
  by (simp add: ws_onmessage_def onmessage_try_def report_def emit_def delivered_of_append
      split: option.splits outcome.splits)

lemma onerror_facts:
  "reconnectAttempts (report (ws_onerror env p s)) = reconnectAttempts s"
  "timers (report (ws_onerror env p s)) = timers s"
  "retries (report (ws_onerror env p s)) = retries s"
  "timeouts_of (trace (report (ws_onerror env p s))) = timeouts_of (trace s)"
  by (simp_all add: ws_onerror_def report_def Let_def emit_fields settle_fields retries_settle
      retries_emit timeouts_of_append split: option.splits outcome.splits)

lemma attemptReconnect_facts:
  "reconnectAttempts s \<le> reconnectAttempts (attemptReconnect s)"
  "reconnectAttempts s \<le> maxReconnectAttempts \<Longrightarrow>
     reconnectAttempts (attemptReconnect s) \<le> maxReconnectAttempts"
  "timeouts_of (trace (attemptReconnect s)) =
     timeouts_of (trace s) @
     replicate (reconnectAttempts (attemptReconnect s) - reconnectAttempts s) reconnectInterval"
  "length (timers (attemptReconnect s)) =
     length (timers s) + (reconnectAttempts (attemptReconnect s) - reconnectAttempts s)"
  "retries (attemptReconnect s) = retries s"
  by (simp_all add: attemptReconnect_def Let_def emit_def timeouts_of_append retries_def)

lemma onclose_facts:
  "reconnectAttempts s \<le> reconnectAttempts (ws_onclose (set_ready i r s))"
  "reconnectAttempts s \<le> maxReconnectAttempts \<Longrightarrow>
     reconnectAttempts (ws_onclose (set_ready i r s)) \<le> maxReconnectAttempts"
  "timeouts_of (trace (ws_onclose (set_ready i r s))) =
     timeouts_of (trace s) @
     replicate (reconnectAttempts (ws_onclose (set_ready i r s)) - reconnectAttempts s)
       reconnectInterval"
  "length (timers (ws_onclose (set_ready i r s))) =
     length (timers s) + (reconnectAttempts (ws_onclose (set_ready i r s)) - reconnectAttempts s)"
  "retries (ws_onclose (set_ready i r s)) = retries s"
  by (simp_all add: ws_onclose_def set_ready_def attemptReconnect_def Let_def emit_def
      timeouts_of_append retries_def)

lemma retries_unchanged:
  "retries (disconnect s) = retries s"
  "retries (report (ws_onmessage env payload s)) = retries s"
  by (simp_all add: retries_def disconnect_facts onmessage_facts)

subsection \<open>Steps and runs\<close>

lemma step_counter_bounded:
  "reconnectAttempts s \<le> maxReconnectAttempts \<Longrightarrow>
   reconnectAttempts (step env s ev) \<le> maxReconnectAttempts"
  by (cases ev)
     (simp_all add: step_def connect_facts disconnect_facts onmessage_facts onerror_facts
        onclose_facts timer_callback_facts ws_onopen_def settle_fields)

lemma step_streak:
  assumes "\<not> is_open ev"
  shows "reconnectAttempts s \<le> reconnectAttempts (step env s ev) \<and>
         timeouts_of (trace (step env s ev)) =
           timeouts_of (trace s) @
           replicate (reconnectAttempts (step env s ev) - reconnectAttempts s) reconnectInterval \<and>
         retries (step env s ev) + length (timers (step env s ev)) =
           retries s + length (timers s) + (reconnectAttempts (step env s ev) - reconnectAttempts s)"
proof (cases ev)
  case (Ev_open i)
  with assms show ?thesis by simp
next
  case (Ev_timeout k)
  have "retries (s\<lparr>timers := take k (timers s) @ drop (Suc k) (timers s)\<rparr>) = retries s"
    by (simp add: retries_def)
  with Ev_timeout show ?thesis
    by (auto simp add: step_def timer_callback_facts retries_timer_callback)
next
  case (Ev_close i clean)
  then show ?thesis
    using onclose_facts(1) [of s i CLOSED]
    by (auto simp add: step_def onclose_facts(3-5))
qed (simp_all add: step_def connect_facts retries_connect disconnect_facts onmessage_facts
      onerror_facts retries_unchanged)

lemma run_Cons: "run env s (ev # es) = run env (step env s ev) es"
  by (simp add: run_def)

lemma run_Nil: "run env s [] = s"
  by (simp add: run_def)

lemma run_append: "run env s (es @ es') = run env (run env s es) es'"
  by (simp add: run_def)

lemma run_counter_bounded:
  "reconnectAttempts s \<le> maxReconnectAttempts \<Longrightarrow>
   reconnectAttempts (run env s es) \<le> maxReconnectAttempts"
  by (induction es arbitrary: s) (simp_all add: run_Nil run_Cons step_counter_bounded)

lemma reachable_counter_bounded:
  "reconnectAttempts (run env (new_client jid) es) \<le> maxReconnectAttempts"
  by (rule run_counter_bounded) (simp add: new_client_def)

lemma run_streak:
  assumes "\<forall>ev\<in>set es. \<not> is_open ev"
  shows "reconnectAttempts s \<le> reconnectAttempts (run env s es) \<and>
         timeouts_of (trace (run env s es)) =
           timeouts_of (trace s) @
           replicate (reconnectAttempts (run env s es) - reconnectAttempts s) reconnectInterval \<and>
         retries (run env s es) + length (timers (run env s es)) =
           retries s + length (timers s) + (reconnectAttempts (run env s es) - reconnectAttempts s)"
  using assms
proof (induction es arbitrary: s)
  case Nil
  then show ?case by (simp add: run_Nil)
next
  case (Cons ev es)
  let ?s1 = "step env s ev"
  let ?s2 = "run env ?s1 es"
  from Cons.prems have ev: "\<not> is_open ev" and es: "\<forall>ev\<in>set es. \<not> is_open ev"
    by simp_all
  note one = step_streak [OF ev, of s env]
  note rest = Cons.IH [OF es, of ?s1]
  from one rest have le: "reconnectAttempts s \<le> reconnectAttempts ?s1"
    "reconnectAttempts ?s1 \<le> reconnectAttempts ?s2"
    by simp_all
  then have split: "reconnectAttempts ?s2 - reconnectAttempts s =
      (reconnectAttempts ?s1 - reconnectAttempts s) + (reconnectAttempts ?s2 - reconnectAttempts ?s1)"
    by arith
  have "timeouts_of (trace ?s2) =
      timeouts_of (trace s) @
      replicate (reconnectAttempts ?s2 - reconnectAttempts s) reconnectInterval"
    using one rest by (simp only: split replicate_add append_assoc)
  moreover have "retries ?s2 + length (timers ?s2) =
      retries s + length (timers s) + (reconnectAttempts ?s2 - reconnectAttempts s)"
    using one rest le by arith
  ultimately show ?case using le by (simp add: run_Cons)
qed

lemma run_messages:
  assumes "i < length (sockets s)" and "readyState (sockets s ! i) = OPEN"
  shows "sockets (run env s (map (Ev_message i) ps)) = sockets s \<and>
         ws (run env s (map (Ev_message i) ps)) = ws s \<and>
         reconnectAttempts (run env s (map (Ev_message i) ps)) = reconnectAttempts s \<and>
         timers (run env s (map (Ev_message i) ps)) = timers s \<and>
         promises (run env s (map (Ev_message i) ps)) = promises s \<and>
         delivered_of (trace (run env s (map (Ev_message i) ps))) =
           delivered_of (trace s) @ List.map_filter (JSON_parse env) ps"
  using assms
proof (induction ps arbitrary: s)
  case Nil
  then show ?case by (simp add: run_Nil map_filter_simps)
next
  case (Cons p ps)
  let ?s1 = "report (ws_onmessage env p s)"
  from Cons.prems have st: "step env s (Ev_message i p) = ?s1"
    by (simp add: step_def)
  from Cons.prems have "i < length (sockets ?s1)" "readyState (sockets ?s1 ! i) = OPEN"
    by (simp_all add: onmessage_facts)
  from Cons.IH [OF this] show ?case
    by (simp add: run_Cons st onmessage_facts delivered_onmessage map_filter_simps
        split: option.splits)
qed

subsection \<open>One connection at a time\<close>

lemma filter_update_count:
  "i < length xs \<Longrightarrow>
   length (filter P (xs[i := y])) + (if P (xs ! i) then 1 else 0) =
   length (filter P xs) + (if P y then 1 else (0::nat))"
proof (induction xs arbitrary: i)
  case Nil
  then show ?case by simp
next
  case (Cons x xs)
  show ?case
  proof (cases i)
    case 0
    then show ?thesis by simp
  next
    case (Suc j)
    with Cons.prems have "j < length xs" by simp
    from Cons.IH [OF this] Suc show ?thesis by simp
  qed
qed


lemma live_pos:
  assumes "i < length (sockets s)" and "readyState (sockets s ! i) \<noteq> CLOSED"
  shows "1 \<le> live_sockets s"
proof -
  from assms have "sockets s ! i \<in> set (filter live (sockets s))"
    by (simp add: live_def)
  then have "filter live (sockets s) \<noteq> []"
    by (metis empty_iff empty_set)
  then show ?thesis
    by (cases "filter live (sockets s)") (simp_all add: live_sockets_def)
qed

lemma live_set_ready_closed:
  assumes "i < length (sockets s)" and "readyState (sockets s ! i) \<noteq> CLOSED"
  shows "live_sockets (set_ready i CLOSED s) + 1 = live_sockets s"
  using filter_update_count [OF assms(1), of live "(sockets s ! i)\<lparr>readyState := CLOSED\<rparr>"]
    assms(2)
  by (simp add: live_sockets_def set_ready_def live_def)

lemma live_set_ready_open:
  assumes "i < length (sockets s)" and "readyState (sockets s ! i) \<noteq> CLOSED"
  shows "live_sockets (set_ready i OPEN s) = live_sockets s"
  using filter_update_count [OF assms(1), of live "(sockets s ! i)\<lparr>readyState := OPEN\<rparr>"]
    assms(2)
  by (simp add: live_sockets_def set_ready_def live_def)

lemma live_close_socket: "length (filter live (close_socket i ss)) = length (filter live ss)"
proof (cases "i < length ss \<and> (readyState (ss ! i) = CONNECTING \<or> readyState (ss ! i) = OPEN)")
  case True
  then have "i < length ss" by simp
  from filter_update_count [OF this, of live "(ss ! i)\<lparr>readyState := CLOSING\<rparr>"] True
  show ?thesis by (auto simp add: close_socket_def live_def)
next
  case False
  then have "close_socket i ss = ss" by (auto simp add: close_socket_def)
  then show ?thesis by simp
qed

lemma live_disconnect: "live_sockets (disconnect s) = live_sockets s"
  by (simp add: live_sockets_def disconnect_def emit_def live_close_socket split: option.splits)

lemma live_connect: "live_sockets (connect env s) \<le> live_sockets s + 1"
  by (simp add: live_sockets_def connect_def Let_def emit_def settle_def split: outcome.splits)

lemma live_timer_callback: "live_sockets (timer_callback env s) \<le> live_sockets s + 1"
  using live_connect [of env s]
  by (simp add: live_sockets_def timer_callback_def Let_def)

lemma live_cong: "sockets s' = sockets s \<Longrightarrow> live_sockets s' = live_sockets s"
  by (simp add: live_sockets_def)


lemma sockets_same:
  "sockets (report (ws_onerror env p s)) = sockets s"
  "sockets (ws_onopen p s) = sockets s"
  "sockets (attemptReconnect s) = sockets s"
  "sockets (ws_onclose s) = sockets s"
  by (simp_all add: ws_onerror_def report_def Let_def emit_fields settle_fields ws_onopen_def
      attemptReconnect_def ws_onclose_def emit_def split: option.splits outcome.splits)

lemma timers_onopen: "timers (ws_onopen p s) = timers s"
  by (simp add: ws_onopen_def settle_fields emit_def)

lemma attemptReconnect_step:
  "timers s = [] \<Longrightarrow> length (timers (attemptReconnect s)) \<le> reconnectAttempts (attemptReconnect s)"
  "timers s = [] \<Longrightarrow> length (timers (attemptReconnect s)) \<le> 1"
  by (simp_all add: attemptReconnect_def Let_def emit_def)

lemma step_one_connection:
  assumes inv: "one_connection s" and nc: "\<not> is_call_connect ev"
  shows "one_connection (step env s ev)"
proof (cases "enabled s ev")
  case False
  with inv show ?thesis by (simp add: step_def)
next
  case en: True
  show ?thesis
  proof (cases ev)
    case Call_connect
    with nc show ?thesis by simp
  next
    case Call_disconnect
    with inv show ?thesis
      by (simp add: step_def one_connection_def disconnect_facts live_disconnect)
  next
    case (Ev_open i)
    with en have i: "i < length (sockets s)" "readyState (sockets s ! i) \<noteq> CLOSED"
      by simp_all
    from live_pos [OF i] inv have "timers s = []"
      by (cases "timers s") (simp_all add: one_connection_def)
    moreover have "live_sockets (ws_onopen (promise_of (sockets s ! i)) (set_ready i OPEN s)) =
        live_sockets s"
      using live_set_ready_open [OF i] by (simp add: live_sockets_def sockets_same)
    moreover have "timers (set_ready i OPEN s) = timers s"
      by (simp add: set_ready_def)
    ultimately show ?thesis using inv Ev_open en
      by (simp add: step_def one_connection_def timers_onopen)
  next
    case (Ev_message i payload)
    with inv en show ?thesis
      by (simp add: step_def one_connection_def onmessage_facts live_sockets_def)
  next
    case (Ev_error i)
    with inv en show ?thesis
      by (simp add: step_def one_connection_def onerror_facts live_sockets_def sockets_same)
  next
    case (Ev_close i clean)
    with en have i: "i < length (sockets s)" "readyState (sockets s ! i) \<noteq> CLOSED"
      by simp_all
    let ?t = "emit (Console (Log_closed (jobId (set_ready i CLOSED s)))) (set_ready i CLOSED s)"
    from live_set_ready_closed [OF i] inv
    have t: "timers s = []" "live_sockets (set_ready i CLOSED s) = 0"
      by (cases "timers s"; simp add: one_connection_def)+
    then have "timers ?t = []" "live_sockets (attemptReconnect ?t) = 0"
      by (simp_all add: emit_def set_ready_def live_sockets_def sockets_same)
    with attemptReconnect_step [of ?t]
    have "one_connection (attemptReconnect ?t)"
      by (simp add: one_connection_def)
    with Ev_close en show ?thesis
      by (simp add: step_def ws_onclose_def)
  next
    case (Ev_timeout k)
    with en have k: "k < length (timers s)" by simp
    with inv have one: "length (timers s) = 1" "live_sockets s = 0"
      by (simp_all add: one_connection_def)
    from k one have e: "take k (timers s) @ drop (Suc k) (timers s) = []"
      by simp
    from one have l: "live_sockets (s\<lparr>timers := []\<rparr>) = 0"
      by (simp add: live_sockets_def)
    have h: "one_connection (timer_callback env (s\<lparr>timers := []\<rparr>))"
      using live_timer_callback [of env "s\<lparr>timers := []\<rparr>"] l
      by (simp add: one_connection_def timer_callback_facts)
    have st: "step env s ev =
        timer_callback env (s\<lparr>timers := take k (timers s) @ drop (Suc k) (timers s)\<rparr>)"
      using Ev_timeout en by (simp add: step_def)
    show ?thesis unfolding st e by (fact h)
  qed
qed

lemma run_one_connection:
  "one_connection s \<Longrightarrow> \<forall>ev\<in>set es. \<not> is_call_connect ev \<Longrightarrow> one_connection (run env s es)"
  by (induction es arbitrary: s) (simp_all add: run_Nil run_Cons step_one_connection)

lemma step_unconnected:
  assumes "timers s = []" and "live_sockets s = 0" and "\<not> is_call_connect ev"
  shows "timers (step env s ev) = [] \<and> live_sockets (step env s ev) = 0"
proof (cases "enabled s ev")
  case False
  with assms show ?thesis by (simp add: step_def)
next
  case True
  show ?thesis
  proof (cases ev)
    case Call_connect
    with assms show ?thesis by simp
  next
    case Call_disconnect
    with assms show ?thesis by (simp add: step_def disconnect_facts live_disconnect)
  next
    case (Ev_open i)
    with True live_pos [of i s] assms show ?thesis by simp
  next
    case (Ev_message i payload)
    with True live_pos [of i s] assms show ?thesis by simp
  next
    case (Ev_error i)
    with True live_pos [of i s] assms show ?thesis by simp
  next
    case (Ev_close i clean)
    with True live_pos [of i s] assms show ?thesis by simp
  next
    case (Ev_timeout k)
    with True assms show ?thesis by simp
  qed
qed

lemma connect_one_connection:
  assumes "timers s = []" and "live_sockets s = 0"
  shows "one_connection (connect env s)"
  using assms live_connect [of env s]
  by (simp add: one_connection_def connect_facts)

lemma run_single_connect:
  assumes "timers s = []" and "live_sockets s = 0"
    and "length (filter is_call_connect es) \<le> 1"
  shows "one_connection (run env s es)"
  using assms
proof (induction es arbitrary: s)
  case Nil
  then show ?case by (simp add: run_Nil one_connection_def)
next
  case (Cons ev es)
  show ?case
  proof (cases "is_call_connect ev")
    case True
    then have ev: "ev = Call_connect" by (cases ev) simp_all
    from True Cons.prems(3) have "filter is_call_connect es = []" by simp
    then have "\<forall>e\<in>set es. \<not> is_call_connect e"
      by (simp add: filter_empty_conv)
    with connect_one_connection [OF Cons.prems(1,2), of env] ev show ?thesis
      by (simp add: run_Cons step_def run_one_connection)
  next
    case False
    with Cons.prems(3) have "length (filter is_call_connect es) \<le> 1" by simp
    with step_unconnected [OF Cons.prems(1,2) False, of env] Cons.IH show ?thesis
      by (simp add: run_Cons)
  qed
qed

lemma reachable_single_connect:
  "length (filter is_call_connect es) \<le> 1 \<Longrightarrow> one_connection (run env (new_client jid) es)"
  by (rule run_single_connect) (simp_all add: new_client_def live_sockets_def)


lemma trace_timer_callback:
  "trace (timer_callback env s) = trace s @ [New_WebSocket (wsUrl s)]"
  by (simp add: timer_callback_def connect_def Let_def emit_def settle_def split: outcome.splits)

lemma attempts_same:
  "connection_attempts (report (ws_onmessage env payload s)) = connection_attempts s"
  "connection_attempts (report (ws_onerror env p s)) = connection_attempts s"
  "connection_attempts (ws_onclose s) = connection_attempts s"
  "connection_attempts (ws_onopen p s) = connection_attempts s"
  "connection_attempts (set_ready i r s) = connection_attempts s"
  "connection_attempts (s\<lparr>timers := ts\<rparr>) = connection_attempts s"
  by (simp_all add: connection_attempts_def ws_onmessage_def onmessage_try_def report_def
      ws_onerror_def Let_def emit_fields settle_fields ws_onclose_def attemptReconnect_def
      ws_onopen_def set_ready_def emit_def split: option.splits outcome.splits)

lemma retries_onopen: "retries (ws_onopen p s) = retries s"
proof -
  have "retries ((emit (Console (Log_connected (jobId s))) s)\<lparr>reconnectAttempts := 0\<rparr>) =
      retries s"
    by (simp add: retries_def emit_def)
  then show ?thesis by (simp add: ws_onopen_def retries_settle)
qed

lemma retries_same:
  "retries (set_ready i r s) = retries s"
  "retries (s\<lparr>timers := ts\<rparr>) = retries s"
  by (simp_all add: set_ready_def retries_def)

lemma step_attempts:
  "connection_attempts (step env s ev) + retries s =
   connection_attempts s + retries (step env s ev) + (if is_call_connect ev then 1 else 0)"
proof (cases "enabled s ev")
  case False
  then have "\<not> is_call_connect ev" by (cases ev) simp_all
  with False show ?thesis by (simp add: step_def)
next
  case True
  then show ?thesis
    by (cases ev)
       (simp_all add: step_def attempts_connect retries_connect attempts_disconnect
          retries_unchanged attempts_same retries_same retries_onopen onerror_facts onclose_facts
          attempts_timer_callback retries_timer_callback)
qed

lemma run_attempts:
  "connection_attempts (run env s es) + retries s =
   connection_attempts s + retries (run env s es) + length (filter is_call_connect es)"
proof (induction es arbitrary: s)
  case Nil
  then show ?case by (simp add: run_Nil)
next
  case (Cons ev es)
  from Cons.IH [of "step env s ev"] step_attempts [of env s ev] show ?case
    by (cases "is_call_connect ev") (simp_all add: run_Cons)
qed

lemma step_timers_interval:
  assumes "set (timers s) \<subseteq> {reconnectInterval}"
  shows "set (timers (step env s ev)) \<subseteq> {reconnectInterval}"
proof (cases ev)
  case (Ev_close i clean)
  with assms show ?thesis
    by (simp add: step_def ws_onclose_def attemptReconnect_def Let_def emit_def set_ready_def)
next
  case (Ev_timeout k)
  have "set (take k (timers s) @ drop (Suc k) (timers s)) \<subseteq> set (timers s)"
    using set_take_subset [of k "timers s"] set_drop_subset [of "Suc k" "timers s"] by simp
  with assms Ev_timeout show ?thesis
    by (auto simp add: step_def timer_callback_facts)
next
  case (Ev_open i)
  with assms show ?thesis
    by (simp add: step_def timers_onopen set_ready_def)
qed (use assms in \<open>simp_all add: step_def connect_facts disconnect_facts onmessage_facts
      onerror_facts\<close>)

lemma run_timers_interval:
  "set (timers s) \<subseteq> {reconnectInterval} \<Longrightarrow>
   set (timers (run env s es)) \<subseteq> {reconnectInterval}"
  by (induction es arbitrary: s) (simp_all add: run_Nil run_Cons step_timers_interval)

lemma reachable_timers_interval:
  "set (timers (run env (new_client jid) es)) \<subseteq> {reconnectInterval}"
  by (rule run_timers_interval) (simp add: new_client_def)

lemma close_then_timer:
  assumes "enabled s (Ev_close i clean)" and "reconnectAttempts s < 5"
  shows "enabled (step env s (Ev_close i clean)) (Ev_timeout (length (timers s))) \<and>
         trace (step env (step env s (Ev_close i clean)) (Ev_timeout (length (timers s)))) =
           trace (step env s (Ev_close i clean)) @
           [New_WebSocket (''ws://localhost:8000/ws/job/'' @ jobId s)] \<and>
         timers (step env (step env s (Ev_close i clean)) (Ev_timeout (length (timers s)))) =
           timers s \<and>
         (WebSocket_ctor env (''ws://localhost:8000/ws/job/'' @ jobId s) = Returns \<longrightarrow>
            ws (step env (step env s (Ev_close i clean)) (Ev_timeout (length (timers s)))) =
              Some (length (sockets s)) \<and>
            sockets (step env (step env s (Ev_close i clean)) (Ev_timeout (length (timers s)))) =
              sockets (step env s (Ev_close i clean)) @
              [\<lparr>readyState = CONNECTING, promise_of = length (promises s)\<rparr>])"
proof -
  let ?s1 = "step env s (Ev_close i clean)"
  from assms have s1: "timers ?s1 = timers s @ [3000]" "jobId ?s1 = jobId s"
    "length (sockets ?s1) = length (sockets s)" "length (promises ?s1) = length (promises s)"
    by (simp_all add: step_def ws_onclose_def attemptReconnect_def set_ready_def emit_def Let_def
        maxReconnectAttempts_def reconnectInterval_def)
  then have en: "enabled ?s1 (Ev_timeout (length (timers s)))"
    by simp
  let ?t = "?s1\<lparr>timers := timers s\<rparr>"
  from s1 en have st: "step env ?s1 (Ev_timeout (length (timers s))) = timer_callback env ?t"
    by (simp add: step_def)
  have u: "wsUrl ?t = ''ws://localhost:8000/ws/job/'' @ jobId s"
    using s1 by (simp add: wsUrl_def)
  have tr: "trace (timer_callback env ?t) = trace ?s1 @ [New_WebSocket (wsUrl ?t)]"
    by (simp add: trace_timer_callback)
  have tm: "timers (timer_callback env ?t) = timers s"
    by (simp add: timer_callback_facts)
  have ok: "ws (timer_callback env ?t) = Some (length (sockets s)) \<and>
      sockets (timer_callback env ?t) =
        sockets ?s1 @ [\<lparr>readyState = CONNECTING, promise_of = length (promises s)\<rparr>]"
    if "WebSocket_ctor env (wsUrl ?t) = Returns"
    using that s1 by (simp add: timer_callback_def connect_def Let_def emit_def)
  from en tr tm ok show ?thesis
    unfolding st u by blast
qed

subsection \<open>The sample states\<close>

lemmas client_defs = sample_env_def new_client_def run_def step_def connect_def emit_def wsUrl_def
  Let_def ws_onopen_def settle_def set_ready_def ws_onclose_def attemptReconnect_def
  maxReconnectAttempts_def reconnectInterval_def disconnect_def close_socket_def
  timer_callback_def ws_onerror_def report_def ws_onmessage_def onmessage_try_def

lemma connected_client_eq:
  "connected_client =
     \<lparr>jobId = ''J1'', ws = Some 0, reconnectAttempts = 0,
      sockets = [\<lparr>readyState = OPEN, promise_of = 0\<rparr>],
      promises = [(Fulfilled, False)], timers = [],
      trace = [New_WebSocket ''ws://localhost:8000/ws/job/J1'', Console (Log_connected ''J1'')]\<rparr>"
  by (simp add: connected_client_def client_defs)

lemma backoff_client_eq:
  "backoff_client =
     \<lparr>jobId = ''J1'', ws = Some 0, reconnectAttempts = 1,
      sockets = [\<lparr>readyState = CLOSED, promise_of = 0\<rparr>],
      promises = [(Fulfilled, False)], timers = [3000],
      trace =
        [New_WebSocket ''ws://localhost:8000/ws/job/J1'', Console (Log_connected ''J1''),
         Console (Log_closed ''J1''), Console (Log_reconnecting 1 5), Set_timeout 3000]\<rparr>"
  by (simp add: backoff_client_def connected_client_eq client_defs)

lemma exhausted_client_eq:
  "exhausted_client =
     \<lparr>jobId = ''J1'', ws = Some 5, reconnectAttempts = 5,
      sockets =
        [\<lparr>readyState = CLOSED, promise_of = 0\<rparr>, \<lparr>readyState = CLOSED, promise_of = 1\<rparr>,
         \<lparr>readyState = CLOSED, promise_of = 2\<rparr>, \<lparr>readyState = CLOSED, promise_of = 3\<rparr>,
         \<lparr>readyState = CLOSED, promise_of = 4\<rparr>, \<lparr>readyState = CONNECTING, promise_of = 5\<rparr>],
      promises =
        [(Fulfilled, False), (Rejected, True), (Rejected, True), (Rejected, True),
         (Rejected, True), (Rejected, True)],
      timers = [],
      trace =
        [New_WebSocket ''ws://localhost:8000/ws/job/J1'', Console (Log_connected ''J1''),
         Console (Log_closed ''J1''), Console (Log_reconnecting 1 5), Set_timeout 3000,
         New_WebSocket ''ws://localhost:8000/ws/job/J1'', Console Err_socket, On_error,
         Console (Log_closed ''J1''), Console (Log_reconnecting 2 5), Set_timeout 3000,
         New_WebSocket ''ws://localhost:8000/ws/job/J1'', Console Err_socket, On_error,
         Console (Log_closed ''J1''), Console (Log_reconnecting 3 5), Set_timeout 3000,
         New_WebSocket ''ws://localhost:8000/ws/job/J1'', Console Err_socket, On_error,
         Console (Log_closed ''J1''), Console (Log_reconnecting 4 5), Set_timeout 3000,
         New_WebSocket ''ws://localhost:8000/ws/job/J1'', Console Err_socket, On_error,
         Console (Log_closed ''J1''), Console (Log_reconnecting 5 5), Set_timeout 3000,
         New_WebSocket ''ws://localhost:8000/ws/job/J1'', Console Err_socket, On_error]\<rparr>"
  by (simp add: exhausted_client_def failing_retries_def backoff_client_eq client_defs)

lemma fixtures_feasible:
  "feasible sample_env (new_client ''J1'') [Call_connect, Ev_open 0, Ev_close 0 False]"
  by (simp add: client_defs)

subsection \<open>Disconnecting\<close>

text \<open>
  C1, as stated, fails. While the client waits to reconnect, \<open>disconnect\<close> leaves the
  timer pending; the timer fires afterwards and a second socket is constructed. With an
  open connection, the close event that follows \<open>disconnect\<close> schedules a reconnect, which
  is made as well.
\<close>

theorem disconnect_during_backoff_counterexample:
  "feasible sample_env (new_client ''J1'') [Call_connect, Ev_open 0, Ev_close 0 False] \<and>
   feasible sample_env backoff_client [Call_disconnect, Ev_timeout 0] \<and>
   timers backoff_client = [3000] \<and>
   connection_attempts (disconnect backoff_client) = 1 \<and>
   connection_attempts (step sample_env (disconnect backoff_client) (Ev_timeout 0)) = 2 \<and>
   ws (step sample_env (disconnect backoff_client) (Ev_timeout 0)) = Some 1 \<and>
   feasible sample_env connected_client [Call_disconnect, Ev_close 0 True, Ev_timeout 0] \<and>
   connection_attempts (disconnect connected_client) = 1 \<and>
   connection_attempts
     (run sample_env (disconnect connected_client) [Ev_close 0 True, Ev_timeout 0]) = 2"
proof -
  note fixtures_feasible
  moreover have "feasible sample_env backoff_client [Call_disconnect, Ev_timeout 0]"
    by (simp add: backoff_client_eq client_defs)
  moreover have "timers backoff_client = [3000]"
    by (simp add: backoff_client_eq)
  moreover have "connection_attempts (disconnect backoff_client) = 1"
    by (simp add: backoff_client_eq connection_attempts_def client_defs)
  moreover have
    "connection_attempts (step sample_env (disconnect backoff_client) (Ev_timeout 0)) = 2"
    by (simp add: backoff_client_eq connection_attempts_def client_defs)
  moreover have "ws (step sample_env (disconnect backoff_client) (Ev_timeout 0)) = Some 1"
    by (simp add: backoff_client_eq client_defs)
  moreover have
    "feasible sample_env connected_client [Call_disconnect, Ev_close 0 True, Ev_timeout 0]"
    by (simp add: connected_client_eq client_defs)
  moreover have "connection_attempts (disconnect connected_client) = 1"
    by (simp add: connected_client_eq connection_attempts_def client_defs)
  moreover have "connection_attempts
     (run sample_env (disconnect connected_client) [Ev_close 0 True, Ev_timeout 0]) = 2"
    by (simp add: connected_client_eq connection_attempts_def client_defs)
  ultimately show ?thesis by blast
qed

text \<open>
  C1, amended: \<open>disconnect\<close> closes the current socket if there is one and clears \<open>ws\<close>,
  and makes no connection attempt itself. It does not cancel a scheduled reconnect: the
  pending timers and the counter are unchanged, and each timer pending when \<open>disconnect\<close>
  returns still fires and makes a new connection attempt.
\<close>

theorem disconnect_keeps_timers:
  "ws (disconnect s) = None \<and>
   timers (disconnect s) = timers s \<and>
   reconnectAttempts (disconnect s) = reconnectAttempts s \<and>
   connection_attempts (disconnect s) = connection_attempts s \<and>
   (\<forall>i. ws s = Some i \<and> i < length (sockets s) \<and>
        (readyState (sockets s ! i) = CONNECTING \<or> readyState (sockets s ! i) = OPEN) \<longrightarrow>
        readyState (sockets (disconnect s) ! i) = CLOSING) \<and>
   (\<forall>k<length (timers s).
      connection_attempts (step env (disconnect s) (Ev_timeout k)) = connection_attempts s + 1)"
proof -
  have closing: "readyState (sockets (disconnect s) ! i) = CLOSING"
    if "ws s = Some i" "i < length (sockets s)"
      "readyState (sockets s ! i) = CONNECTING \<or> readyState (sockets s ! i) = OPEN" for i
    using that by (auto simp add: disconnect_def emit_def close_socket_def)
  have fires: "connection_attempts (step env (disconnect s) (Ev_timeout k)) =
      connection_attempts s + 1" if "k < length (timers s)" for k
  proof -
    have "connection_attempts
        ((disconnect s)\<lparr>timers := take k (timers (disconnect s)) @
                                   drop (Suc k) (timers (disconnect s))\<rparr>) =
        connection_attempts (disconnect s)"
      by (simp add: connection_attempts_def)
    with that show ?thesis
      by (simp add: step_def disconnect_facts attempts_timer_callback attempts_disconnect)
  qed
  from closing fires show ?thesis
    by (simp add: disconnect_facts attempts_disconnect)
qed

theorem disconnect_keeps_timers_witness:
  "ws backoff_client = Some 0 \<and> (0::nat) < length (timers backoff_client) \<and>
   timers (disconnect backoff_client) = timers backoff_client \<and>
   connection_attempts (step sample_env (disconnect backoff_client) (Ev_timeout 0)) =
     connection_attempts backoff_client + 1 \<and>
   ws connected_client = Some 0 \<and> readyState (sockets connected_client ! 0) = OPEN \<and>
   readyState (sockets (disconnect connected_client) ! 0) = CLOSING"
proof -
  have a: "ws backoff_client = Some 0" "(0::nat) < length (timers backoff_client)"
    by (simp_all add: backoff_client_eq)
  have b: "ws connected_client = Some 0" "(0::nat) < length (sockets connected_client)"
    "readyState (sockets connected_client ! 0) = OPEN"
    by (simp_all add: connected_client_eq)
  from a b disconnect_keeps_timers [of backoff_client sample_env]
    disconnect_keeps_timers [of connected_client sample_env]
  show ?thesis by blast
qed

text \<open>
  C8: \<open>disconnect\<close> is idempotent. A second call finds \<open>ws\<close> cleared and changes nothing,
  neither a field nor the trace; and on any instance whose \<open>ws\<close> is null the call is a
  no-op. The method has no failing branch.
\<close>

theorem disconnect_idempotent:
  "disconnect (disconnect s) = disconnect s \<and> (ws s = None \<longrightarrow> disconnect s = s)"
  by (simp add: disconnect_def emit_def split: option.splits)

theorem disconnect_idempotent_witness:
  "ws (disconnect connected_client) = None \<and>
   disconnect (disconnect connected_client) = disconnect connected_client"
  using disconnect_idempotent [of connected_client]
    disconnect_idempotent [of "disconnect connected_client"]
  by (simp add: disconnect_facts)

subsection \<open>Reconnecting\<close>

text \<open>
  C2: the maximum is 5 and the interval 3000 ms. From any state a client can reach, over
  any events among which no socket opens (so the counter is not reset), the counter never
  passes 5; the timers scheduled meanwhile are as many as the counter went up, hence at
  most 5, each with delay 3000, as is every timer pending; every retry made meanwhile
  consumed one timer, pending before or scheduled since, and every socket constructed
  meanwhile is a retry or a \<open>connect\<close> call of the caller. So at most 5 retries are made
  meanwhile when no timer was pending at the start, and always when the caller calls
  \<open>connect\<close> once, as the pages using the class do.
\<close>

theorem at_most_five_retries:
  assumes "\<forall>ev\<in>set es. \<not> is_open ev"
  shows "maxReconnectAttempts = 5 \<and> reconnectInterval = 3000 \<and>
         reconnectAttempts (run env (new_client jid) es0) \<le>
           reconnectAttempts (run env (new_client jid) (es0 @ es)) \<and>
         reconnectAttempts (run env (new_client jid) (es0 @ es)) \<le> 5 \<and>
         timeouts_of (trace (run env (new_client jid) (es0 @ es))) =
           timeouts_of (trace (run env (new_client jid) es0)) @
           replicate (reconnectAttempts (run env (new_client jid) (es0 @ es)) -
                      reconnectAttempts (run env (new_client jid) es0)) 3000 \<and>
         retries (run env (new_client jid) (es0 @ es)) +
           length (timers (run env (new_client jid) (es0 @ es))) =
           retries (run env (new_client jid) es0) +
           length (timers (run env (new_client jid) es0)) +
           (reconnectAttempts (run env (new_client jid) (es0 @ es)) -
            reconnectAttempts (run env (new_client jid) es0)) \<and>
         set (timers (run env (new_client jid) (es0 @ es))) \<subseteq> {3000} \<and>
         connection_attempts (run env (new_client jid) (es0 @ es)) +
           retries (run env (new_client jid) es0) =
           connection_attempts (run env (new_client jid) es0) +
           retries (run env (new_client jid) (es0 @ es)) +
           length (filter is_call_connect es) \<and>
         (timers (run env (new_client jid) es0) = [] \<longrightarrow>
            retries (run env (new_client jid) (es0 @ es)) \<le>
              retries (run env (new_client jid) es0) + 5) \<and>
         (length (filter is_call_connect (es0 @ es)) \<le> 1 \<longrightarrow>
            retries (run env (new_client jid) (es0 @ es)) \<le>
              retries (run env (new_client jid) es0) + 5)"
proof -
  let ?s0 = "run env (new_client jid) es0"
  let ?s1 = "run env (new_client jid) (es0 @ es)"
  have r: "run env ?s0 es = ?s1"
    by (simp add: run_append)
  note streak = run_streak [OF assms, of ?s0 env, unfolded r]
  have bound: "reconnectAttempts ?s1 \<le> 5"
    using reachable_counter_bounded [of env jid "es0 @ es"]
    by (simp add: maxReconnectAttempts_def)
  have general: "maxReconnectAttempts = 5 \<and> reconnectInterval = 3000 \<and>
      reconnectAttempts ?s0 \<le> reconnectAttempts ?s1 \<and>
      reconnectAttempts ?s1 \<le> 5 \<and>
      timeouts_of (trace ?s1) =
        timeouts_of (trace ?s0) @
        replicate (reconnectAttempts ?s1 - reconnectAttempts ?s0) 3000 \<and>
      retries ?s1 + length (timers ?s1) =
        retries ?s0 + length (timers ?s0) + (reconnectAttempts ?s1 - reconnectAttempts ?s0)"
    using streak bound by (simp add: maxReconnectAttempts_def reconnectInterval_def)
  have delays: "set (timers ?s1) \<subseteq> {3000}"
    using reachable_timers_interval [of env jid "es0 @ es"]
    by (simp add: reconnectInterval_def)
  have sockets_made: "connection_attempts ?s1 + retries ?s0 =
      connection_attempts ?s0 + retries ?s1 + length (filter is_call_connect es)"
    using run_attempts [of env ?s0 es] by (simp only: r)
  from streak have mono: "reconnectAttempts ?s0 \<le> reconnectAttempts ?s1"
    and used: "retries ?s1 + length (timers ?s1) =
      retries ?s0 + length (timers ?s0) + (reconnectAttempts ?s1 - reconnectAttempts ?s0)"
    by simp_all
  have fresh: "retries ?s1 \<le> retries ?s0 + 5" if "timers ?s0 = []"
  proof -
    from that have "length (timers ?s0) = 0" by simp
    with used mono bound show ?thesis by arith
  qed
  have single: "retries ?s1 \<le> retries ?s0 + 5"
    if "length (filter is_call_connect (es0 @ es)) \<le> 1"
  proof -
    from that have "length (filter is_call_connect es0) \<le> 1"
      by simp
    from reachable_single_connect [OF this, of env jid]
    have "length (timers ?s0) \<le> reconnectAttempts ?s0"
      by (simp add: one_connection_def)
    with used mono bound show ?thesis by arith
  qed
  from general delays sockets_made fresh single show ?thesis
    by blast
qed

theorem at_most_five_retries_witness:
  "filter is_open (Ev_close 0 False # failing_retries @ [Ev_close 5 False]) = [] \<and>
   timers (run sample_env (new_client ''J1'') [Call_connect, Ev_open 0]) = [] \<and>
   length (filter is_call_connect
     ([Call_connect, Ev_open 0] @ Ev_close 0 False # failing_retries @ [Ev_close 5 False])) \<le> 1 \<and>
   retries (run sample_env (new_client ''J1'') [Call_connect, Ev_open 0]) = 0 \<and>
   retries
     (run sample_env (new_client ''J1'')
        ([Call_connect, Ev_open 0] @ Ev_close 0 False # failing_retries @ [Ev_close 5 False])) = 5 \<and>
   retries
     (run sample_env (new_client ''J1'')
        ([Call_connect, Ev_open 0] @ Ev_close 0 False # failing_retries @ [Ev_close 5 False])) \<le>
     retries (run sample_env (new_client ''J1'') [Call_connect, Ev_open 0]) + 5 \<and>
   timeouts_of (trace
     (run sample_env (new_client ''J1'')
        ([Call_connect, Ev_open 0] @ Ev_close 0 False # failing_retries @ [Ev_close 5 False]))) =
     [3000, 3000, 3000, 3000, 3000]"
proof -
  have a: "\<forall>ev\<in>set (Ev_close 0 False # failing_retries @ [Ev_close 5 False]). \<not> is_open ev"
    by (simp add: failing_retries_def)
  have b: "filter is_open (Ev_close 0 False # failing_retries @ [Ev_close 5 False]) = []"
    by (simp add: failing_retries_def)
  have s0: "run sample_env (new_client ''J1'') [Call_connect, Ev_open 0] = connected_client"
    by (simp add: connected_client_def)
  have s1: "run sample_env (new_client ''J1'')
      ([Call_connect, Ev_open 0] @ Ev_close 0 False # failing_retries @ [Ev_close 5 False]) =
      step sample_env exhausted_client (Ev_close 5 False)"
    by (simp add: exhausted_client_def backoff_client_def connected_client_def run_def)
  have c: "timers (run sample_env (new_client ''J1'') [Call_connect, Ev_open 0]) = []"
    "retries (run sample_env (new_client ''J1'') [Call_connect, Ev_open 0]) = 0"
    by (simp_all only: s0) (simp_all add: connected_client_eq retries_def)
  have d: "length (filter is_call_connect
     ([Call_connect, Ev_open 0] @ Ev_close 0 False # failing_retries @ [Ev_close 5 False])) \<le> 1"
    by (simp add: failing_retries_def)
  have e: "retries
     (run sample_env (new_client ''J1'')
        ([Call_connect, Ev_open 0] @ Ev_close 0 False # failing_retries @ [Ev_close 5 False])) = 5"
    "timeouts_of (trace
     (run sample_env (new_client ''J1'')
        ([Call_connect, Ev_open 0] @ Ev_close 0 False # failing_retries @ [Ev_close 5 False]))) =
     [3000, 3000, 3000, 3000, 3000]"
    by (simp_all only: s1) (simp_all add: exhausted_client_eq retries_def client_defs)
  from b c d e
    at_most_five_retries [OF a, of sample_env "''J1''" "[Call_connect, Ev_open 0]"]
  show ?thesis by blast
qed

text \<open>
  C3, as stated, fails. When the first retry fails, \<open>onError\<close> is called although only one
  of five attempts is used, and the client goes on retrying; after five failed retries
  \<open>onError\<close> has been called five times; and the closure that finds the attempts exhausted
  adds a console line and no error signal. The promise the caller holds is fulfilled; the
  rejected ones are those of the retries, each with its empty \<open>catch\<close>.
\<close>

theorem error_signal_counterexample:
  "feasible sample_env (new_client ''J1'') [Call_connect, Ev_open 0, Ev_close 0 False] \<and>
   feasible sample_env backoff_client (failing_retries @ [Ev_close 5 False]) \<and>
   reconnectAttempts (run sample_env backoff_client [Ev_timeout 0, Ev_error 1]) = 1 \<and>
   error_signals (run sample_env backoff_client [Ev_timeout 0, Ev_error 1]) = 1 \<and>
   timers (run sample_env backoff_client [Ev_timeout 0, Ev_error 1, Ev_close 1 False]) = [3000] \<and>
   reconnectAttempts exhausted_client = 5 \<and>
   error_signals exhausted_client = 5 \<and>
   step sample_env exhausted_client (Ev_close 5 False) =
     (set_ready 5 CLOSED exhausted_client)
       \<lparr>trace := trace exhausted_client @ [Console (Log_closed ''J1'')]\<rparr> \<and>
   timers (step sample_env exhausted_client (Ev_close 5 False)) = [] \<and>
   error_signals (step sample_env exhausted_client (Ev_close 5 False)) = 5 \<and>
   promises (step sample_env exhausted_client (Ev_close 5 False)) =
     [(Fulfilled, False), (Rejected, True), (Rejected, True), (Rejected, True),
      (Rejected, True), (Rejected, True)]"
proof -
  note fixtures_feasible
  moreover have "feasible sample_env backoff_client (failing_retries @ [Ev_close 5 False])"
    by (simp add: failing_retries_def backoff_client_eq client_defs)
  moreover have
    "reconnectAttempts (run sample_env backoff_client [Ev_timeout 0, Ev_error 1]) = 1"
    by (simp add: backoff_client_eq client_defs)
  moreover have "error_signals (run sample_env backoff_client [Ev_timeout 0, Ev_error 1]) = 1"
    by (simp add: backoff_client_eq error_signals_def client_defs)
  moreover have
    "timers (run sample_env backoff_client [Ev_timeout 0, Ev_error 1, Ev_close 1 False]) = [3000]"
    by (simp add: backoff_client_eq client_defs)
  moreover have "reconnectAttempts exhausted_client = 5"
    by (simp add: exhausted_client_eq)
  moreover have "error_signals exhausted_client = 5"
    by (simp add: exhausted_client_eq error_signals_def)
  moreover have "step sample_env exhausted_client (Ev_close 5 False) =
     (set_ready 5 CLOSED exhausted_client)
       \<lparr>trace := trace exhausted_client @ [Console (Log_closed ''J1'')]\<rparr>"
    by (simp add: exhausted_client_eq client_defs)
  moreover have "timers (step sample_env exhausted_client (Ev_close 5 False)) = []"
    by (simp add: exhausted_client_eq client_defs)
  moreover have "error_signals (step sample_env exhausted_client (Ev_close 5 False)) = 5"
    by (simp add: exhausted_client_eq error_signals_def client_defs)
  moreover have "promises (step sample_env exhausted_client (Ev_close 5 False)) =
     [(Fulfilled, False), (Rejected, True), (Rejected, True), (Rejected, True),
      (Rejected, True), (Rejected, True)]"
    by (simp add: exhausted_client_eq client_defs)
  ultimately show ?thesis by blast
qed

text \<open>
  C3, amended: once the counter has reached the maximum, the client stops retrying: as
  long as no socket opens, no timer is scheduled and the counter stays. The closure that
  finds the attempts exhausted only logs; it delivers no error signal. \<open>onError\<close>, when
  supplied, is called on every error event of a socket, whatever the counter.
\<close>

theorem exhausted_client_stops:
  assumes "reconnectAttempts s = maxReconnectAttempts" and "\<forall>ev\<in>set es. \<not> is_open ev"
  shows "reconnectAttempts (run env s es) = maxReconnectAttempts \<and>
         timeouts_of (trace (run env s es)) = timeouts_of (trace s) \<and>
         (enabled s (Ev_close i clean) \<longrightarrow>
            step env s (Ev_close i clean) =
              (set_ready i CLOSED s)\<lparr>trace := trace s @ [Console (Log_closed (jobId s))]\<rparr>) \<and>
         (enabled s' (Ev_error j) \<and> onError env \<noteq> None \<longrightarrow>
            error_signals (step env s' (Ev_error j)) = error_signals s' + 1)"
proof -
  from assms(1) have "reconnectAttempts (run env s es) \<le> maxReconnectAttempts"
    by (intro run_counter_bounded) simp
  with run_streak [OF assms(2), of s env] assms(1)
  have stop: "reconnectAttempts (run env s es) = maxReconnectAttempts"
    "timeouts_of (trace (run env s es)) = timeouts_of (trace s)"
    by simp_all
  have quiet: "step env s (Ev_close i clean) =
      (set_ready i CLOSED s)\<lparr>trace := trace s @ [Console (Log_closed (jobId s))]\<rparr>"
    if "enabled s (Ev_close i clean)"
    using that assms(1)
    by (simp add: step_def ws_onclose_def attemptReconnect_def emit_def set_ready_def)
  have err: "error_signals (step env s' (Ev_error j)) = error_signals s' + 1"
    if "enabled s' (Ev_error j)" "onError env \<noteq> None"
    using that
    by (auto simp add: step_def ws_onerror_def report_def Let_def error_signals_def emit_fields
        settle_fields split: option.splits outcome.splits)
  from stop quiet err show ?thesis by blast
qed

theorem exhausted_client_stops_witness:
  "reconnectAttempts exhausted_client = maxReconnectAttempts \<and>
   filter is_open [Ev_close 5 False] = [] \<and>
   enabled exhausted_client (Ev_close 5 False) \<and>
   timeouts_of (trace (run sample_env exhausted_client [Ev_close 5 False])) =
     timeouts_of (trace exhausted_client) \<and>
   enabled connected_client (Ev_error 0) \<and> onError sample_env \<noteq> None \<and>
   error_signals (step sample_env connected_client (Ev_error 0)) =
     error_signals connected_client + 1"
proof -
  have a: "reconnectAttempts exhausted_client = maxReconnectAttempts"
    "enabled exhausted_client (Ev_close 5 False)"
    "enabled connected_client (Ev_error 0)"
    by (simp_all add: exhausted_client_eq connected_client_eq maxReconnectAttempts_def)
  have b: "\<forall>ev\<in>set [Ev_close 5 False]. \<not> is_open ev" "onError sample_env \<noteq> None"
    by (simp_all add: sample_env_def)
  have c: "filter is_open [Ev_close 5 False] = []"
    by simp
  from a b(2) c exhausted_client_stops [OF a(1) b(1), of sample_env 5 False connected_client 0]
  show ?thesis by blast
qed

text \<open>
  C4: whenever the open event of a socket fires, \<open>reconnectAttempts\<close> is 0 right after the
  handler has run, whatever it was before and whichever socket opened.
\<close>

theorem open_resets_counter:
  "reconnectAttempts (ws_onopen p s) = 0 \<and>
   (enabled s (Ev_open i) \<longrightarrow> reconnectAttempts (step env s (Ev_open i)) = 0)"
  by (simp add: ws_onopen_def settle_fields step_def)

theorem open_resets_counter_witness:
  "reconnectAttempts (step sample_env backoff_client (Ev_timeout 0)) = 1 \<and>
   enabled (step sample_env backoff_client (Ev_timeout 0)) (Ev_open 1) \<and>
   reconnectAttempts
     (step sample_env (step sample_env backoff_client (Ev_timeout 0)) (Ev_open 1)) = 0"
proof -
  have a: "reconnectAttempts (step sample_env backoff_client (Ev_timeout 0)) = 1"
    "enabled (step sample_env backoff_client (Ev_timeout 0)) (Ev_open 1)"
    by (simp_all add: backoff_client_eq client_defs)
  from a open_resets_counter [of _ "step sample_env backoff_client (Ev_timeout 0)" 1 sample_env]
  show ?thesis by blast
qed

text \<open>
  C9: the close handler does not look at how the socket closed. A clean and an unclean
  closure lead to the same state; every closure runs \<open>attemptReconnect\<close>; and whenever
  fewer than 5 attempts are counted, the counter goes up by one and a reconnect is
  scheduled 3000 ms ahead, also when the job behind the socket has finished: the timer
  added can fire, and when it does, a socket for the same job's URL is constructed and,
  unless the constructor throws, becomes the current socket, connecting.
\<close>

theorem close_always_reconnects:
  "step env s (Ev_close i clean) = step env s (Ev_close i clean') \<and>
   (enabled s (Ev_close i clean) \<longrightarrow>
      step env s (Ev_close i clean) =
        attemptReconnect (emit (Console (Log_closed (jobId s))) (set_ready i CLOSED s))) \<and>
   (enabled s (Ev_close i clean) \<and> reconnectAttempts s < 5 \<longrightarrow>
      reconnectAttempts (step env s (Ev_close i clean)) = reconnectAttempts s + 1 \<and>
      timers (step env s (Ev_close i clean)) = timers s @ [3000] \<and>
      timeouts_of (trace (step env s (Ev_close i clean))) = timeouts_of (trace s) @ [3000] \<and>
      enabled (step env s (Ev_close i clean)) (Ev_timeout (length (timers s))) \<and>
      trace (step env (step env s (Ev_close i clean)) (Ev_timeout (length (timers s)))) =
        trace (step env s (Ev_close i clean)) @
        [New_WebSocket (''ws://localhost:8000/ws/job/'' @ jobId s)] \<and>
      timers (step env (step env s (Ev_close i clean)) (Ev_timeout (length (timers s)))) =
        timers s \<and>
      (WebSocket_ctor env (''ws://localhost:8000/ws/job/'' @ jobId s) = Returns \<longrightarrow>
         ws (step env (step env s (Ev_close i clean)) (Ev_timeout (length (timers s)))) =
           Some (length (sockets s)) \<and>
         sockets (step env (step env s (Ev_close i clean)) (Ev_timeout (length (timers s)))) =
           sockets (step env s (Ev_close i clean)) @
           [\<lparr>readyState = CONNECTING, promise_of = length (promises s)\<rparr>]))"
proof -
  have same: "step env s (Ev_close i clean) = step env s (Ev_close i clean')"
    by (simp add: step_def)
  have handler: "step env s (Ev_close i clean) =
      attemptReconnect (emit (Console (Log_closed (jobId s))) (set_ready i CLOSED s))"
    if "enabled s (Ev_close i clean)"
    using that by (simp add: step_def ws_onclose_def set_ready_def)
  have scheduled: "reconnectAttempts (step env s (Ev_close i clean)) = reconnectAttempts s + 1 \<and>
      timers (step env s (Ev_close i clean)) = timers s @ [3000] \<and>
      timeouts_of (trace (step env s (Ev_close i clean))) = timeouts_of (trace s) @ [3000]"
    if "enabled s (Ev_close i clean)" "reconnectAttempts s < 5"
    using that
    by (simp add: step_def ws_onclose_def attemptReconnect_def set_ready_def emit_def Let_def
        maxReconnectAttempts_def reconnectInterval_def timeouts_of_append)
  from same handler scheduled close_then_timer [of s i clean env] show ?thesis
    by blast
qed

theorem close_always_reconnects_witness:
  "enabled connected_client (Ev_close 0 True) \<and> reconnectAttempts connected_client < 5 \<and>
   WebSocket_ctor sample_env (''ws://localhost:8000/ws/job/'' @ jobId connected_client) = Returns \<and>
   step sample_env connected_client (Ev_close 0 True) =
     step sample_env connected_client (Ev_close 0 False) \<and>
   timers (step sample_env connected_client (Ev_close 0 True)) =
     timers connected_client @ [3000] \<and>
   enabled (step sample_env connected_client (Ev_close 0 True))
     (Ev_timeout (length (timers connected_client))) \<and>
   trace (step sample_env (step sample_env connected_client (Ev_close 0 True))
            (Ev_timeout (length (timers connected_client)))) =
     trace (step sample_env connected_client (Ev_close 0 True)) @
     [New_WebSocket (''ws://localhost:8000/ws/job/'' @ jobId connected_client)] \<and>
   ws (step sample_env (step sample_env connected_client (Ev_close 0 True))
         (Ev_timeout (length (timers connected_client)))) =
     Some (length (sockets connected_client))"
proof -
  have a: "enabled connected_client (Ev_close 0 True)" "reconnectAttempts connected_client < 5"
    by (simp_all add: connected_client_eq)
  have b: "WebSocket_ctor sample_env
      (''ws://localhost:8000/ws/job/'' @ jobId connected_client) = Returns"
    by (simp add: sample_env_def)
  from a b close_always_reconnects [of sample_env connected_client 0 True False]
  show ?thesis by blast
qed

subsection \<open>Inbound messages\<close>

text \<open>
  C5: on an open socket, a message that does not parse adds one console line and nothing
  else: \<open>onMessage\<close> is not called, the socket stays open, \<open>ws\<close> and the counter keep
  their values. Over any sequence of messages the sockets, \<open>ws\<close>, the counter and the
  timers are unchanged, and \<open>onMessage\<close> receives exactly the messages that parse, in the
  order they arrived.
\<close>

theorem malformed_message_ignored:
  assumes "i < length (sockets s)" and "readyState (sockets s ! i) = OPEN"
  shows "(JSON_parse env payload = None \<longrightarrow>
            step env s (Ev_message i payload) =
              s\<lparr>trace := trace s @ [Console (Err_parse SyntaxError)]\<rparr>) \<and>
         sockets (run env s (map (Ev_message i) ps)) = sockets s \<and>
         ws (run env s (map (Ev_message i) ps)) = ws s \<and>
         reconnectAttempts (run env s (map (Ev_message i) ps)) = reconnectAttempts s \<and>
         timers (run env s (map (Ev_message i) ps)) = timers s \<and>
         delivered_of (trace (run env s (map (Ev_message i) ps))) =
           delivered_of (trace s) @ List.map_filter (JSON_parse env) ps"
proof -
  have "JSON_parse env payload = None \<longrightarrow>
      step env s (Ev_message i payload) =
        s\<lparr>trace := trace s @ [Console (Err_parse SyntaxError)]\<rparr>"
    using assms
    by (simp add: step_def ws_onmessage_def onmessage_try_def report_def emit_def)
  with run_messages [OF assms, of env ps] show ?thesis by simp
qed

theorem malformed_message_ignored_witness:
  "(0::nat) < length (sockets connected_client) \<and>
   readyState (sockets connected_client ! 0) = OPEN \<and>
   JSON_parse sample_env ''garbled'' = None \<and>
   step sample_env connected_client (Ev_message 0 ''garbled'') =
     connected_client\<lparr>trace := trace connected_client @ [Console (Err_parse SyntaxError)]\<rparr> \<and>
   delivered_of (trace (run sample_env connected_client
     (map (Ev_message 0) [''a'', ''garbled'', ''b'']))) = [''a'', ''b'']"
proof -
  have a: "(0::nat) < length (sockets connected_client)"
    "readyState (sockets connected_client ! 0) = OPEN"
    by (simp_all add: connected_client_eq)
  have b: "JSON_parse sample_env ''garbled'' = None"
    by (simp add: sample_env_def)
  have c: "delivered_of (trace connected_client) @
      List.map_filter (JSON_parse sample_env) [''a'', ''garbled'', ''b''] = [''a'', ''b'']"
    by (simp add: connected_client_eq sample_env_def map_filter_simps)
  from malformed_message_ignored [OF a, of sample_env "''garbled''" "[''a'', ''garbled'', ''b'']"] a b c
  show ?thesis by simp
qed

text \<open>
  C10: when \<open>onMessage\<close> throws on a message that parsed, the handler's \<open>catch\<close> takes
  the exception: it is logged with the parse-failure line and no exception leaves the
  handler. The socket stays open, and the messages that follow are delivered as before.
\<close>

theorem throwing_handler_is_caught:
  assumes "JSON_parse env payload = Some d" and "onMessage env d = Throws"
  shows "ws_onmessage env payload s =
           (s\<lparr>trace := trace s @ [On_message d, Console (Err_parse CallbackError)]\<rparr>, None) \<and>
         (i < length (sockets s) \<and> readyState (sockets s ! i) = OPEN \<longrightarrow>
            step env s (Ev_message i payload) =
              s\<lparr>trace := trace s @ [On_message d, Console (Err_parse CallbackError)]\<rparr> \<and>
            sockets (step env s (Ev_message i payload)) = sockets s \<and>
            delivered_of (trace (run env s (Ev_message i payload # map (Ev_message i) ps))) =
              delivered_of (trace s) @ d # List.map_filter (JSON_parse env) ps)"
proof -
  have h: "ws_onmessage env payload s =
      (s\<lparr>trace := trace s @ [On_message d, Console (Err_parse CallbackError)]\<rparr>, None)"
    using assms by (simp add: ws_onmessage_def onmessage_try_def emit_def)
  have "delivered_of (trace (run env s (Ev_message i payload # map (Ev_message i) ps))) =
      delivered_of (trace s) @ d # List.map_filter (JSON_parse env) ps"
    if "i < length (sockets s)" "readyState (sockets s ! i) = OPEN"
    using run_messages [OF that, of env "payload # ps"] assms
    by (simp add: map_filter_simps)
  with h show ?thesis by (simp add: step_def report_def)
qed

theorem throwing_handler_is_caught_witness:
  "JSON_parse sample_env ''boom'' = Some ''boom'' \<and> onMessage sample_env ''boom'' = Throws \<and>
   (0::nat) < length (sockets connected_client) \<and>
   readyState (sockets connected_client ! 0) = OPEN \<and>
   snd (ws_onmessage sample_env ''boom'' connected_client) = None \<and>
   delivered_of (trace (run sample_env connected_client
     (Ev_message 0 ''boom'' # map (Ev_message 0) [''a'', ''b'']))) = [''boom'', ''a'', ''b'']"
proof -
  have a: "JSON_parse sample_env ''boom'' = Some ''boom''" "onMessage sample_env ''boom'' = Throws"
    by (simp_all add: sample_env_def)
  have b: "(0::nat) < length (sockets connected_client)"
    "readyState (sockets connected_client ! 0) = OPEN"
    by (simp_all add: connected_client_eq)
  have c: "delivered_of (trace connected_client) @
      ''boom'' # List.map_filter (JSON_parse sample_env) [''a'', ''b''] = [''boom'', ''a'', ''b'']"
    by (simp add: connected_client_eq sample_env_def map_filter_simps)
  from throwing_handler_is_caught [OF a, of connected_client 0 "[''a'', ''b'']"] a b c
  show ?thesis by simp
qed

section \<open>Properties of the job runner\<close>

lemma run_stages_terminal:
  "plan \<noteq> [] \<Longrightarrow>
   run_stages jid acc plan \<noteq> [] \<and>
   terminal (last (run_stages jid acc plan)) \<and>
   (\<forall>e\<in>set (butlast (run_stages jid acc plan)). \<not> terminal e)"
proof (induction plan arbitrary: acc)
  case Nil
  then show ?case by simp
next
  case (Cons st rest)
  show ?case
  proof (cases "work st")
    case Succeeds
    show ?thesis
    proof (cases "rest = []")
      case True
      with Succeeds show ?thesis by (simp add: terminal_def)
    next
      case False
      from Cons.IH [OF False, of "acc + weight st"] Succeeds False
      show ?thesis by (simp add: terminal_def)
    qed
  next
    case (Fails err)
    then show ?thesis by (simp add: terminal_def)
  qed
qed

lemma one_terminal:
  assumes "evs \<noteq> []" and "terminal (last evs)" and "\<forall>e\<in>set (butlast evs). \<not> terminal e"
  shows "length (filter terminal evs) = 1"
proof -
  from assms(1) have "evs = butlast evs @ [last evs]" by simp
  then have "filter terminal evs = filter terminal (butlast evs) @ filter terminal [last evs]"
    by (metis filter_append)
  moreover from assms(3) have "filter terminal (butlast evs) = []"
    by (simp add: filter_empty_conv)
  ultimately show ?thesis using assms(2) by simp
qed

lemma stage_plan_nonempty: "stage_plan_ok plan \<Longrightarrow> plan \<noteq> []"
  by (auto simp: stage_plan_ok_def)

lemma run_stages_bounds:
  assumes "\<forall>st\<in>set plan. 0 \<le> weight st" and "acc + sum_list (map weight plan) = 100"
  shows "sorted (map progress (run_stages jid acc plan)) \<and>
         (\<forall>e\<in>set (run_stages jid acc plan). acc \<le> progress e \<and> progress e \<le> 100)"
  using assms
proof (induction plan arbitrary: acc)
  case Nil
  then show ?case by simp
next
  case (Cons st rest)
  from Cons.prems have w: "0 \<le> weight st" and nn: "\<forall>st\<in>set rest. 0 \<le> weight st"
    and tot: "(acc + weight st) + sum_list (map weight rest) = 100"
    by simp_all
  from nn have "0 \<le> sum_list (map weight rest)"
    by (intro sum_list_nonneg) auto
  with tot w have le: "acc \<le> 100" "acc + weight st \<le> 100" by arith+
  note IH = Cons.IH [OF nn tot]
  show ?case
  proof (cases "work st")
    case Succeeds
    show ?thesis
    proof (cases "rest = []")
      case True
      with Succeeds le show ?thesis by simp
    next
      case False
      with Succeeds IH w le show ?thesis by fastforce
    qed
  next
    case (Fails err)
    with le show ?thesis by simp
  qed
qed

lemma run_stages_cumulative:
  assumes "acc + sum_list (map weight plan) = 100" and "k < length (run_stages jid acc plan)"
  shows "progress (run_stages jid acc plan ! k) =
         acc + sum_list (map weight
           (take (if status (run_stages jid acc plan ! k) = Failed then k else Suc k) plan))"
  using assms
proof (induction plan arbitrary: acc k)
  case Nil
  then show ?case by simp
next
  case (Cons st rest)
  from Cons.prems have tot: "(acc + weight st) + sum_list (map weight rest) = 100"
    by simp
  show ?case
  proof (cases "work st")
    case Succeeds
    show ?thesis
    proof (cases "rest = []")
      case True
      with Succeeds Cons.prems show ?thesis by simp
    next
      case False
      show ?thesis
      proof (cases k)
        case 0
        with Succeeds False show ?thesis by simp
      next
        case (Suc j)
        with Cons.prems Succeeds False have "j < length (run_stages jid (acc + weight st) rest)"
          by simp
        from Cons.IH [OF tot this] Suc Succeeds False show ?thesis by simp
      qed
    qed
  next
    case (Fails err)
    with Cons.prems show ?thesis by simp
  qed
qed

lemma run_stages_success:
  assumes "\<forall>st\<in>set plan. work st = Succeeds" and "acc + sum_list (map weight plan) = 100"
    and "plan \<noteq> []"
  shows "map progress (run_stages jid acc plan) =
           map (\<lambda>k. acc + sum_list (map weight (take (Suc k) plan))) [0..<length plan] \<and>
         progress (last (run_stages jid acc plan)) = 100 \<and>
         status (last (run_stages jid acc plan)) = Completed"
  using assms
proof (induction plan arbitrary: acc)
  case Nil
  then show ?case by simp
next
  case (Cons st rest)
  from Cons.prems have ok: "work st = Succeeds" "\<forall>st\<in>set rest. work st = Succeeds"
    and tot: "(acc + weight st) + sum_list (map weight rest) = 100"
    by simp_all
  show ?case
  proof (cases "rest = []")
    case True
    with ok tot show ?thesis by simp
  next
    case False
    from Cons.IH [OF ok(2) tot False] False
    have nonempty: "run_stages jid (acc + weight st) rest \<noteq> []"
      by (cases rest) (auto split: work_result.splits if_splits)
    from Cons.IH [OF ok(2) tot False] ok False nonempty show ?thesis
      by (simp add: map_upt_Suc add.assoc del: upt_Suc)
  qed
qed

text \<open>
  C6: the events of a job contain exactly one terminal event (completed or failed), and it
  is the last one. A Stage Plan is never empty, its weights summing to 100.
\<close>

theorem one_terminal_event_last:
  assumes "plan \<noteq> []"
  shows "run_job jid plan \<noteq> [] \<and>
         terminal (last (run_job jid plan)) \<and>
         (\<forall>e\<in>set (butlast (run_job jid plan)). \<not> terminal e) \<and>
         length (filter terminal (run_job jid plan)) = 1"
  using run_stages_terminal [OF assms, of jid 0]
  by (simp add: run_job_def one_terminal)

theorem one_terminal_event_last_witness:
  "eda_plan_failing \<noteq> [] \<and>
   map status (run_job ''J1'' eda_plan_failing) =
     [Running, Running, Running, Running, Running, Failed] \<and>
   terminal (last (run_job ''J1'' eda_plan_failing)) \<and>
   filter terminal (butlast (run_job ''J1'' eda_plan_failing)) = [] \<and>
   length (filter terminal (run_job ''J1'' eda_plan_failing)) = 1"
proof -
  have n: "eda_plan_failing \<noteq> []"
    by (simp add: eda_plan_failing_def eda_plan_def)
  have v: "map status (run_job ''J1'' eda_plan_failing) =
     [Running, Running, Running, Running, Running, Failed]"
    by (simp add: run_job_def eda_plan_failing_def eda_plan_def)
  have f: "filter terminal (butlast (run_job ''J1'' eda_plan_failing)) = []"
    using one_terminal_event_last [OF n, of "''J1''"] by (simp add: filter_empty_conv)
  from n v f one_terminal_event_last [OF n, of "''J1''"] show ?thesis by blast
qed

text \<open>
  C7: for a Stage Plan (weights non-negative, summing to 100) the progress values are
  non-decreasing and each is the sum of the weights of the stages completed so far; when
  all stages succeed, the values are the cumulative sums and the last event is completed
  at 100. The eleven-stage plan with weights 5, 10 (nine times), 5 emits
  5, 15, 25, 35, 45, 55, 65, 75, 85, 95, 100, the last as completed.
\<close>

theorem progress_nondecreasing_to_100:
  "(stage_plan_ok plan \<longrightarrow>
      sorted (map progress (run_job jid plan)) \<and>
      (\<forall>k<length (run_job jid plan).
         progress (run_job jid plan ! k) =
           sum_list (map weight
             (take (if status (run_job jid plan ! k) = Failed then k else Suc k) plan))) \<and>
      (all_succeed plan \<longrightarrow>
         map progress (run_job jid plan) =
           map (\<lambda>k. sum_list (map weight (take (Suc k) plan))) [0..<length plan] \<and>
         progress (last (run_job jid plan)) = 100 \<and>
         status (last (run_job jid plan)) = Completed)) \<and>
   map weight eda_plan = [5, 10, 10, 10, 10, 10, 10, 10, 10, 10, 5] \<and>
   stage_plan_ok eda_plan \<and> all_succeed eda_plan \<and>
   map progress (run_job jid eda_plan) = [5, 15, 25, 35, 45, 55, 65, 75, 85, 95, 100] \<and>
   map status (run_job jid eda_plan) =
     [Running, Running, Running, Running, Running, Running, Running, Running, Running,
      Running, Completed]"
proof -
  have general: "sorted (map progress (run_job jid plan)) \<and>
      (\<forall>k<length (run_job jid plan).
         progress (run_job jid plan ! k) =
           sum_list (map weight
             (take (if status (run_job jid plan ! k) = Failed then k else Suc k) plan))) \<and>
      (all_succeed plan \<longrightarrow>
         map progress (run_job jid plan) =
           map (\<lambda>k. sum_list (map weight (take (Suc k) plan))) [0..<length plan] \<and>
         progress (last (run_job jid plan)) = 100 \<and>
         status (last (run_job jid plan)) = Completed)"
    if ok: "stage_plan_ok plan"
  proof -
    from ok have nn: "\<forall>st\<in>set plan. 0 \<le> weight st"
      and tot: "0 + sum_list (map weight plan) = 100"
      by (simp_all add: stage_plan_ok_def)
    have "sorted (map progress (run_job jid plan))"
      using run_stages_bounds [OF nn tot, of jid] by (simp add: run_job_def)
    moreover have "\<forall>k<length (run_job jid plan).
         progress (run_job jid plan ! k) =
           sum_list (map weight
             (take (if status (run_job jid plan ! k) = Failed then k else Suc k) plan))"
      using run_stages_cumulative [OF tot, of _ jid] by (simp add: run_job_def)
    moreover have "map progress (run_job jid plan) =
           map (\<lambda>k. sum_list (map weight (take (Suc k) plan))) [0..<length plan] \<and>
         progress (last (run_job jid plan)) = 100 \<and>
         status (last (run_job jid plan)) = Completed"
      if "all_succeed plan"
      using run_stages_success [OF _ tot stage_plan_nonempty [OF ok], of jid] that
      by (simp add: run_job_def all_succeed_def)
    ultimately show ?thesis by blast
  qed
  have w: "map weight eda_plan = [5, 10, 10, 10, 10, 10, 10, 10, 10, 10, 5]"
    by (simp add: eda_plan_def)
  have p: "stage_plan_ok eda_plan"
    by (simp add: stage_plan_ok_def eda_plan_def)
  have a: "all_succeed eda_plan"
    by (simp add: all_succeed_def eda_plan_def)
  have v: "map progress (run_job jid eda_plan) = [5, 15, 25, 35, 45, 55, 65, 75, 85, 95, 100]"
    by (simp add: run_job_def eda_plan_def)
  have s: "map status (run_job jid eda_plan) =
     [Running, Running, Running, Running, Running, Running, Running, Running, Running,
      Running, Completed]"
    by (simp add: run_job_def eda_plan_def)
  from general w p a v s show ?thesis by blast
qed

theorem progress_nondecreasing_to_100_witness:
  "stage_plan_ok eda_plan_failing \<and> stage_plan_ok eda_plan \<and> all_succeed eda_plan \<and>
   sorted (map progress (run_job ''J1'' eda_plan_failing)) \<and>
   map progress (run_job ''J1'' eda_plan_failing) = [5, 15, 25, 35, 45, 45] \<and>
   (0::nat) < length (run_job ''J1'' eda_plan) \<and>
   progress (run_job ''J1'' eda_plan ! 0) =
     sum_list (map weight
       (take (if status (run_job ''J1'' eda_plan ! 0) = Failed then 0 else Suc 0) eda_plan)) \<and>
   progress (last (run_job ''J1'' eda_plan)) = 100 \<and>
   status (last (run_job ''J1'' eda_plan)) = Completed"
proof -
  have f: "stage_plan_ok eda_plan_failing"
    by (simp add: stage_plan_ok_def eda_plan_failing_def eda_plan_def)
  have v: "map progress (run_job ''J1'' eda_plan_failing) = [5, 15, 25, 35, 45, 45]"
    by (simp add: run_job_def eda_plan_failing_def eda_plan_def)
  have n: "(0::nat) < length (run_job ''J1'' eda_plan)"
    by (simp add: run_job_def eda_plan_def)
  from f v n progress_nondecreasing_to_100 [of eda_plan_failing "''J1''"]
    progress_nondecreasing_to_100 [of eda_plan "''J1''"]
  show ?thesis by blast
qed

end
